theory Spec2Isabelle
  imports Main "HOL-Library.Word" "HOL-Library.Sublist"
begin

section \<open>htsgetserver.utils: the header size of a BAM file\<close>

subsection \<open>Byte streams and the binary reader\<close>

type_synonym byte = "8 word"

text \<open>
  The exceptions that \<open>get_bam_header_size\<close> can end with: the three
  \<open>ValueError\<close>s it raises itself (with their messages), the failure of a read of
  the binary reader (fewer bytes left than asked for, or a negative count), and
  \<open>min\<close> of an empty sequence.
\<close>

datatype bam_error = ValueError string | StructError | MinOfEmpty

definition and_then :: "'e + 'a \<Rightarrow> ('a \<Rightarrow> 'e + 'b) \<Rightarrow> 'e + 'b" where
  "and_then m f = (case m of Inl e \<Rightarrow> Inl e | Inr v \<Rightarrow> f v)"

text \<open>
  Modelled from the spec: \<open>ngsindex.utils.BinReader\<close> is a library class whose source
  is not part of the repository. The spec describes it as a sequential reader over a byte
  stream with fixed-width integer and string decoding in a declared byte order; the
  code declares the little-endian order (\<open>byte_order="<"\<close>). A reader is modelled by the
  bytes it has not consumed yet; every read returns its value and the reader after
  it, and fails when the stream is too short.
\<close>

definition read_bytes :: "int \<Rightarrow> byte list \<Rightarrow> bam_error + (byte list \<times> byte list)" where
  "read_bytes n r =
     (if n < 0 \<or> int (length r) < n then Inl StructError
      else Inr (take (nat n) r, drop (nat n) r))"

fun le_uint :: "byte list \<Rightarrow> int" where
  "le_uint [] = 0"
| "le_uint (b # bs) = uint b + 256 * le_uint bs"

definition read_ubytes :: "int \<Rightarrow> byte list \<Rightarrow> bam_error + (int list \<times> byte list)" where
  "read_ubytes n r = and_then (read_bytes n r) (\<lambda>(bs, r'). Inr (map uint bs, r'))"

definition read_byte :: "byte list \<Rightarrow> bam_error + (int \<times> byte list)" where
  "read_byte r = and_then (read_bytes 1 r) (\<lambda>(bs, r'). Inr (sint (hd bs), r'))"

definition read_ushort :: "byte list \<Rightarrow> bam_error + (int \<times> byte list)" where
  "read_ushort r = and_then (read_bytes 2 r) (\<lambda>(bs, r'). Inr (le_uint bs, r'))"

definition read_uint :: "byte list \<Rightarrow> bam_error + (int \<times> byte list)" where
  "read_uint r = and_then (read_bytes 4 r) (\<lambda>(bs, r'). Inr (le_uint bs, r'))"

definition read_int :: "byte list \<Rightarrow> bam_error + (int \<times> byte list)" where
  "read_int r =
     and_then (read_bytes 4 r)
       (\<lambda>(bs, r'). Inr (if le_uint bs < 2 ^ 31 then le_uint bs else le_uint bs - 2 ^ 32, r'))"

text \<open>
  \<open>read_string n flag\<close> consumes \<open>n\<close> bytes; the code throws the string away, so
  the model returns the raw bytes.
\<close>

definition read_string :: "int \<Rightarrow> bool \<Rightarrow> byte list \<Rightarrow> bam_error + (byte list \<times> byte list)" where
  "read_string n flag r = read_bytes n r"

text \<open>
  Modelled from the spec: the code reads BSIZE with \<open>reader.ushort()\<close>, the only call
  on the reader that is not one of the \<open>read_*\<close> methods. The spec says that a 2-byte
  BSIZE is decoded at this place, so \<open>ushort\<close> is the 2-byte unsigned read.
\<close>

definition ushort :: "byte list \<Rightarrow> bam_error + (int \<times> byte list)" where
  "ushort r = read_ushort r"

subsection \<open>Resources and the parsed index\<close>

text \<open>
  \<open>Resource.open\<close> is a stub in the repository. A resource is modelled by the two
  byte streams that \<open>open("b", decompress=True)\<close> and \<open>open("b", decompress=False)\<close>
  hand to the reader.
\<close>

record resource =
  inflated :: "byte list"
  raw :: "byte list"

text \<open>
  The result of \<open>ngsindex.parse_index\<close> on the index resource, as far as the code
  looks at it: reference entries, each with its intervals, each with a file offset.
\<close>

record offset =
  file_offset :: int
  block_offset :: int

record ref_index =
  intervals :: "offset list"

record ngs_index =
  ref_indexes :: "ref_index list"

subsection \<open>Pass 1: the uncompressed size of the header\<close>

text \<open>The loop \<open>for _ in range(n_ref)\<close>, with \<open>uncompressed_size\<close> as accumulator.\<close>

fun read_refs :: "nat \<Rightarrow> int \<Rightarrow> byte list \<Rightarrow> bam_error + (int \<times> byte list)" where
  "read_refs 0 uncompressed_size r = Inr (uncompressed_size, r)"
| "read_refs (Suc n) uncompressed_size r =
     and_then (read_int r) (\<lambda>(l_name, r1).
     and_then (read_string l_name True r1) (\<lambda>(name, r2).
     and_then (read_int r2) (\<lambda>(l_ref, r3).
     read_refs n (uncompressed_size + (8 + l_name)) r3)))"

definition uncompressed_header_size :: "byte list \<Rightarrow> bam_error + int" where
  "uncompressed_header_size bam_file =
     and_then (read_string 3 True bam_file) (\<lambda>(magic, r1).
     and_then (read_byte r1) (\<lambda>(version, r2).
     and_then (read_int r2) (\<lambda>(l_text, r3).
     and_then (read_string l_text True r3) (\<lambda>(text, r4).
     and_then (read_int r4) (\<lambda>(n_ref, r5).
     and_then (read_refs (nat n_ref) (12 + l_text) r5) (\<lambda>(uncompressed_size, r6).
     Inr uncompressed_size))))))"

subsection \<open>Pass 2: the compressed blocks that hold the header\<close>

text \<open>
  One run of the body of the \<open>while\<close> loop: the header of one block is decoded and
  checked, and the block is skipped. The result is \<open>(bsize, isize, reader)\<close>.
\<close>

definition read_block :: "byte list \<Rightarrow> bam_error + (int \<times> int \<times> byte list)" where
  "read_block r =
     and_then (read_ubytes 4 r) (\<lambda>(fixed, r1).
     and_then (read_uint r1) (\<lambda>(mtime, r2).
     and_then (read_ubytes 2 r2) (\<lambda>(xfl_os, r3).
     and_then (read_ushort r3) (\<lambda>(xlen, r4).
     if xlen \<noteq> 6 then Inl (ValueError ''Extra RFC1952 subfields not yet supported'')
     else and_then (read_ubytes 2 r4) (\<lambda>(ids, r5).
     if ids \<noteq> [66, 67] then Inl (ValueError ''Invalid subfield identifier'')
     else and_then (read_ushort r5) (\<lambda>(slen, r6).
     if slen \<noteq> 2 then Inl (ValueError ''Invalid subfield length'')
     else and_then (ushort r6) (\<lambda>(bsize, r7).
     and_then (read_ubytes (bsize - xlen - 19) r7) (\<lambda>(cdata, r8).
     and_then (read_uint r8) (\<lambda>(crc32, r9).
     and_then (read_uint r9) (\<lambda>(isize, r10).
     Inr (bsize, isize, r10)))))))))))"

lemma read_bytes_length:
  "read_bytes n r = Inr (bs, r') \<Longrightarrow> length r' = length r - nat n \<and> length bs = nat n"
  by (auto simp: read_bytes_def split: if_splits)

lemma read_ubytes_length:
  "read_ubytes n r = Inr (vs, r') \<Longrightarrow> length r' = length r - nat n \<and> int (length r) \<ge> n"
  by (auto simp: read_ubytes_def read_bytes_def and_then_def split: if_splits)

lemma read_uint_length:
  "read_uint r = Inr (v, r') \<Longrightarrow> length r' \<le> length r"
  by (auto simp: read_uint_def read_bytes_def and_then_def split: if_splits)

lemma read_ushort_length:
  "read_ushort r = Inr (v, r') \<Longrightarrow> length r' \<le> length r"
  by (auto simp: read_ushort_def read_bytes_def and_then_def split: if_splits)

lemma read_block_shorter:
  assumes "read_block r = Inr (bsize, isize, r')"
  shows "length r' < length r"
proof -
  from assms obtain fixed r1 where 1: "read_ubytes 4 r = Inr (fixed, r1)"
    by (cases "read_ubytes 4 r") (auto simp: read_block_def and_then_def)
  from assms 1 obtain mtime r2 where 2: "read_uint r1 = Inr (mtime, r2)"
    by (cases "read_uint r1") (auto simp: read_block_def and_then_def)
  from assms 1 2 obtain xo r3 where 3: "read_ubytes 2 r2 = Inr (xo, r3)"
    by (cases "read_ubytes 2 r2") (auto simp: read_block_def and_then_def)
  from assms 1 2 3 obtain xlen r4 where 4: "read_ushort r3 = Inr (xlen, r4)"
    by (cases "read_ushort r3") (auto simp: read_block_def and_then_def)
  from assms 1 2 3 4 have x: "xlen = 6"
    by (auto simp: read_block_def and_then_def split: if_splits)
  from assms 1 2 3 4 x obtain ids r5 where 5: "read_ubytes 2 r4 = Inr (ids, r5)"
    by (cases "read_ubytes 2 r4") (auto simp: read_block_def and_then_def)
  from assms 1 2 3 4 x 5 have i: "ids = [66, 67]"
    by (auto simp: read_block_def and_then_def split: if_splits)
  from assms 1 2 3 4 x 5 i obtain slen r6 where 6: "read_ushort r5 = Inr (slen, r6)"
    by (cases "read_ushort r5") (auto simp: read_block_def and_then_def)
  from assms 1 2 3 4 x 5 i 6 have s: "slen = 2"
    by (auto simp: read_block_def and_then_def split: if_splits)
  from assms 1 2 3 4 x 5 i 6 s obtain bsize' r7 where 7: "ushort r6 = Inr (bsize', r7)"
    by (cases "ushort r6") (auto simp: read_block_def and_then_def)
  from assms 1 2 3 4 x 5 i 6 s 7 obtain cdata r8
    where 8: "read_ubytes (bsize' - 6 - 19) r7 = Inr (cdata, r8)"
    by (cases "read_ubytes (bsize' - 6 - 19) r7") (auto simp: read_block_def and_then_def)
  from assms 1 2 3 4 x 5 i 6 s 7 8 obtain crc r9 where 9: "read_uint r8 = Inr (crc, r9)"
    by (cases "read_uint r8") (auto simp: read_block_def and_then_def)
  from assms 1 2 3 4 x 5 i 6 s 7 8 9 obtain isz where 10: "read_uint r9 = Inr (isz, r')"
    by (cases "read_uint r9") (auto simp: read_block_def and_then_def)
  have "length r1 < length r"
    using read_ubytes_length [OF 1] by auto
  moreover have "length r' \<le> length r1"
    using read_uint_length [OF 2] read_ubytes_length [OF 3] read_ushort_length [OF 4]
      read_ubytes_length [OF 5] read_ushort_length [OF 6]
      read_ushort_length [OF 7 [unfolded ushort_def]] read_ubytes_length [OF 8]
      read_uint_length [OF 9] read_uint_length [OF 10]
    by linarith
  ultimately show ?thesis by simp
qed

text \<open>
  The \<open>while block_size < uncompressed_size\<close> loop, with \<open>header_size\<close> and
  \<open>block_size\<close> as accumulators. It ends: every run of the body consumes bytes of
  the stream, or raises.
\<close>

function scan_blocks :: "int \<Rightarrow> byte list \<Rightarrow> int \<Rightarrow> int \<Rightarrow> bam_error + int" where
  "scan_blocks uncompressed_size r header_size block_size =
     (if block_size < uncompressed_size then
        (case read_block r of
           Inl e \<Rightarrow> Inl e
         | Inr (bsize, isize, r') \<Rightarrow>
             scan_blocks uncompressed_size r' (header_size + bsize) (block_size + isize))
      else Inr (header_size + 1))"
  by pat_completeness auto
termination
  by (relation "measure (\<lambda>(u, r, h, b). length r)") (auto dest: read_block_shorter)

declare scan_blocks.simps [simp del]

text \<open>Python's \<open>min\<close> over a generator: the empty one raises.\<close>

definition py_min :: "int list \<Rightarrow> bam_error + int" where
  "py_min xs = (case xs of [] \<Rightarrow> Inl MinOfEmpty | x # ys \<Rightarrow> Inr (fold min ys x))"

definition index_offsets :: "ngs_index \<Rightarrow> int list" where
  "index_offsets index = map file_offset (concat (map intervals (ref_indexes index)))"

text \<open>
  \<open>get_bam_header_size bam_resource index_resource\<close>. The second argument is \<open>None\<close>
  when the caller passes no index resource, and otherwise the index that
  \<open>parse_index\<close> reads from it.
\<close>

definition get_bam_header_size :: "resource \<Rightarrow> ngs_index option \<Rightarrow> bam_error + int" where
  "get_bam_header_size bam_resource index_resource =
     (case index_resource of
        None \<Rightarrow>
          and_then (uncompressed_header_size (inflated bam_resource)) (\<lambda>uncompressed_size.
            scan_blocks uncompressed_size (raw bam_resource) 0 0)
      | Some index \<Rightarrow> py_min (index_offsets index))"

subsection \<open>Well-formed inputs\<close>

text \<open>
  The byte streams the claims speak about, written the way the BAM and BGZF formats lay
  them out: little-endian integers, the BAM header (the magic bytes \<open>B\<close>, \<open>A\<close>, \<open>M\<close>
  and 1, the length of the
  header text, the text, the count of references, and per reference the length of the
  name, the name and the length of the sequence), and a BGZF block.
\<close>

fun le_bytes :: "nat \<Rightarrow> nat \<Rightarrow> byte list" where
  "le_bytes 0 n = []"
| "le_bytes (Suc k) n = word_of_nat n # le_bytes k (n div 256)"

definition le16 :: "nat \<Rightarrow> byte list" where
  "le16 n = le_bytes 2 n"

definition le32 :: "nat \<Rightarrow> byte list" where
  "le32 n = le_bytes 4 n"

definition encode_ref :: "byte list \<times> nat \<Rightarrow> byte list" where
  "encode_ref ref = le32 (length (fst ref)) @ fst ref @ le32 (snd ref)"

definition bam_header_bytes :: "byte list \<Rightarrow> (byte list \<times> nat) list \<Rightarrow> byte list" where
  "bam_header_bytes text refs =
     [66, 65, 77, 1] @ le32 (length text) @ text @ le32 (length refs) @ concat (map encode_ref refs)"

text \<open>
  A reference is its name and the length of its sequence. It is well-formed when both
  lengths fit the signed 4-byte fields that hold them.
\<close>

definition wf_ref :: "byte list \<times> nat \<Rightarrow> bool" where
  "wf_ref ref = (length (fst ref) < 2 ^ 31 \<and> snd ref < 2 ^ 31)"

text \<open>
  The fields of a BGZF block in the order of the file: four fixed bytes, MTIME, the two
  bytes XFL and OS, XLEN, the two subfield identifiers, SLEN, BSIZE, the compressed
  data, CRC32 and ISIZE. \<open>block_header_bytes\<close> are the bytes up to SLEN, the part that
  the code checks.
\<close>

record bgzf_block =
  fixed :: "byte list"
  mtime :: nat
  xfl_os :: "byte list"
  xlen :: nat
  si1 :: byte
  si2 :: byte
  slen :: nat
  bsize :: nat
  cdata :: "byte list"
  crc32 :: nat
  isize :: nat

definition block_header_bytes :: "bgzf_block \<Rightarrow> byte list" where
  "block_header_bytes b =
     fixed b @ le32 (mtime b) @ xfl_os b @ le16 (xlen b) @ [si1 b, si2 b] @ le16 (slen b)"

definition block_bytes :: "bgzf_block \<Rightarrow> byte list" where
  "block_bytes b =
     block_header_bytes b @ le16 (bsize b) @ cdata b @ le32 (crc32 b) @ le32 (isize b)"

text \<open>
  \<open>wf_sizes\<close>: every field up to SLEN has the width the format gives it, whatever its
  value. \<open>wf_block\<close>: moreover XLEN is 6, the identifiers are 66 and 67, SLEN is 2, and
  BSIZE is the size of the whole block minus one (the block has 26 bytes besides its
  compressed data). \<open>malformed\<close>: one of the three checks of the code fails, and
  \<open>block_error\<close> is the message of the first that does.
\<close>

definition wf_sizes :: "bgzf_block \<Rightarrow> bool" where
  "wf_sizes b =
     (length (fixed b) = 4 \<and> mtime b < 2 ^ 32 \<and> length (xfl_os b) = 2 \<and>
      xlen b < 2 ^ 16 \<and> slen b < 2 ^ 16)"

definition wf_block :: "bgzf_block \<Rightarrow> bool" where
  "wf_block b =
     (wf_sizes b \<and> xlen b = 6 \<and> si1 b = 66 \<and> si2 b = 67 \<and> slen b = 2 \<and>
      25 \<le> bsize b \<and> bsize b < 2 ^ 16 \<and> length (cdata b) = bsize b - 25 \<and>
      crc32 b < 2 ^ 32 \<and> isize b < 2 ^ 32)"

definition malformed :: "bgzf_block \<Rightarrow> bool" where
  "malformed b = (xlen b \<noteq> 6 \<or> (uint (si1 b), uint (si2 b)) \<noteq> (66, 67) \<or> slen b \<noteq> 2)"

definition block_error :: "bgzf_block \<Rightarrow> string" where
  "block_error b =
     (if xlen b \<noteq> 6 then ''Extra RFC1952 subfields not yet supported''
      else if (uint (si1 b), uint (si2 b)) \<noteq> (66, 67) then ''Invalid subfield identifier''
      else ''Invalid subfield length'')"

text \<open>
  The size of the header as the spec's formula states it, for a header text of length
  \<open>L\<close> and reference names of lengths \<open>lns\<close>.
\<close>

definition spec_header_size :: "int \<Rightarrow> int list \<Rightarrow> int" where
  "spec_header_size L lns = 4 + 4 + L + (\<Sum>ln\<leftarrow>lns. 8 + ln)"

text \<open>
  Examples: a block without compressed data that declares the uncompressed size \<open>n\<close>,
  a block header with an XLEN of 8, and an index with the offsets 500, 200 and 800.
\<close>

definition example_block :: "nat \<Rightarrow> bgzf_block" where
  "example_block n =
     \<lparr>fixed = [31, 139, 8, 4], mtime = 0, xfl_os = [0, 255], xlen = 6, si1 = 66, si2 = 67,
      slen = 2, bsize = 25, cdata = [], crc32 = 0, isize = n\<rparr>"

definition example_index :: ngs_index where
  "example_index =
     \<lparr>ref_indexes =
        [\<lparr>intervals = [\<lparr>file_offset = 500, block_offset = 0\<rparr>,
                       \<lparr>file_offset = 200, block_offset = 0\<rparr>]\<rparr>,
         \<lparr>intervals = []\<rparr>,
         \<lparr>intervals = [\<lparr>file_offset = 800, block_offset = 0\<rparr>]\<rparr>]\<rparr>"

definition bad_header :: bgzf_block where
  "bad_header = (example_block 0)\<lparr>xlen := 8\<rparr>"

section \<open>htsgetserver.server: errors, the router, the request handler\<close>

subsection \<open>\<open>HttpError\<close> and its subclasses\<close>

text \<open>
  An \<open>HttpError\<close> carries \<open>status\<close> and \<open>error_type\<close>, the \<open>args\<close> of the exception,
  and the \<open>args\<close> of its \<open>__cause__\<close> (\<open>None\<close> when it was not raised \<open>from\<close> another
  exception). \<open>NotFoundHttpError\<close> also keeps the path it was raised for, which callers
  pass as a string or as a list of segments.
\<close>

datatype path_arg = PathStr string | PathParts "string list"

record http_error =
  status :: nat
  error_type :: string
  args :: "string list"
  cause :: "string list option"
  path :: "path_arg option"

text \<open>An exception: an \<open>HttpError\<close>, or any other one, with its class name and its \<open>args\<close>.\<close>

datatype exn = HttpError http_error | PyError string "string list"

definition NotFoundHttpError :: "path_arg \<Rightarrow> http_error" where
  "NotFoundHttpError p =
     \<lparr>status = 404, error_type = ''NotFound'',
      args = [''The resource requested was not found''], cause = None, path = Some p\<rparr>"

definition UnknownHttpError :: http_error where
  "UnknownHttpError =
     \<lparr>status = 500, error_type = ''UnknownError'', args = [], cause = None, path = None\<rparr>"

text \<open>\<open>raise e from err\<close> sets the cause of \<open>e\<close>.\<close>

definition raise_from :: "http_error \<Rightarrow> string list \<Rightarrow> http_error" where
  "raise_from e cause_args = e\<lparr>cause := Some cause_args\<rparr>"

text \<open>
  The property \<open>message\<close>. \<open>hasattr(self, "__cause__")\<close> holds for every exception, so
  without \<open>args\<close> the \<open>args\<close> of the cause are read, and a cause that is \<open>None\<close> has none:
  an \<open>AttributeError\<close>.
\<close>

definition message :: "http_error \<Rightarrow> exn + string" where
  "message e =
     (if args e \<noteq> [] then Inr (hd (args e))
      else case cause e of
             None \<Rightarrow>
               Inl (PyError ''AttributeError''
                 [CHR 0x27 # ''NoneType'' @ CHR 0x27 # '' object has no attribute '' @
                  CHR 0x27 # ''args'' @ [CHR 0x27]])
           | Some cause_args \<Rightarrow> if cause_args \<noteq> [] then Inr (hd cause_args) else Inr [])"


subsection \<open>\<open>Router\<close>\<close>

text \<open>
  \<open>self.routes\<close> is a dictionary whose values are dictionaries again, or handlers.
  \<open>add_route\<close> changes it in place; the model returns the new dictionary. The path is
  walked through all but its last segment, a missing segment gets a fresh dictionary,
  and the last segment is bound to the handler. An empty path has no last segment
  (\<open>IndexError\<close>), and a handler met on the way is not a dictionary (\<open>TypeError\<close>); in
  both cases nothing was changed before the exception.
\<close>

datatype 'h node = Handler 'h | Dict "string \<Rightarrow> 'h node option"

type_synonym 'h routes = "string \<Rightarrow> 'h node option"

datatype route_error = IndexError | TypeError

fun add_route :: "'h routes \<Rightarrow> string list \<Rightarrow> 'h \<Rightarrow> route_error + 'h routes" where
  "add_route route_dict [] handler = Inl IndexError"
| "add_route route_dict [part] handler = Inr (route_dict(part \<mapsto> Handler handler))"
| "add_route route_dict (part # parts) handler =
     (case route_dict part of
        None \<Rightarrow>
          (case add_route Map.empty parts handler of
             Inl e \<Rightarrow> Inl e
           | Inr d \<Rightarrow> Inr (route_dict(part \<mapsto> Dict d)))
      | Some (Dict sub) \<Rightarrow>
          (case add_route sub parts handler of
             Inl e \<Rightarrow> Inl e
           | Inr d \<Rightarrow> Inr (route_dict(part \<mapsto> Dict d)))
      | Some (Handler h) \<Rightarrow> Inl TypeError)"

text \<open>
  \<open>get_route_handler\<close>: the \<open>for\<close> loop over the segments, \<open>p\<close> being the whole path that
  a \<open>NotFoundHttpError\<close> reports. The \<open>else\<close> of the loop is reached when the segments
  run out.
\<close>

fun walk :: "string list \<Rightarrow> 'h routes \<Rightarrow> string list \<Rightarrow> http_error + ('h \<times> string list)" where
  "walk p route_dict [] = Inl (NotFoundHttpError (PathParts p))"
| "walk p route_dict (part # rest) =
     (case route_dict part of
        None \<Rightarrow> Inl (NotFoundHttpError (PathParts p))
      | Some (Dict val) \<Rightarrow> walk p val rest
      | Some (Handler val) \<Rightarrow> Inr (val, rest))"

definition get_route_handler :: "'h routes \<Rightarrow> string list \<Rightarrow> http_error + ('h \<times> string list)" where
  "get_route_handler routes p = walk p routes p"

text \<open>
  The node that a path leads to through inner nodes only; \<open>None\<close> when a segment is
  absent or bound to a handler.
\<close>

fun descend :: "'h routes \<Rightarrow> string list \<Rightarrow> 'h routes option" where
  "descend route_dict [] = Some route_dict"
| "descend route_dict (part # rest) =
     (case route_dict part of
        Some (Dict val) \<Rightarrow> descend val rest
      | _ \<Rightarrow> None)"

section \<open>htsgetserver: content negotiation, error responses, tickets\<close>

subsection \<open>Python strings\<close>

definition startswith :: "string \<Rightarrow> string \<Rightarrow> bool" where
  "startswith s p = (take (length p) s = p)"

definition endswith :: "string \<Rightarrow> string \<Rightarrow> bool" where
  "endswith s p = (length p \<le> length s \<and> drop (length s - length p) s = p)"

definition slice :: "string \<Rightarrow> nat \<Rightarrow> nat \<Rightarrow> string" where
  "slice s i j = take (length s - j - i) (drop i s)"

text \<open>
  \<open>str.lower\<close> and \<open>str.upper\<close> on the 8-bit characters of the model, read as the code
  points 0 to 255. The two letters whose capitals lie beyond 255 are left as they
  are by \<open>upper\<close>.
\<close>

definition lower_char :: "char \<Rightarrow> char" where
  "lower_char c =
     (let n = (of_char c :: nat)
      in if (65 \<le> n \<and> n \<le> 90) \<or> (192 \<le> n \<and> n \<le> 222 \<and> n \<noteq> 215) then char_of (n + 32) else c)"

definition lower :: "string \<Rightarrow> string" where
  "lower s = map lower_char s"

definition upper_char :: "char \<Rightarrow> string" where
  "upper_char c =
     (let n = (of_char c :: nat)
      in if (97 \<le> n \<and> n \<le> 122) \<or> (224 \<le> n \<and> n \<le> 254 \<and> n \<noteq> 247) then [char_of (n - 32)]
         else if n = 223 then ''SS'' else [c])"

definition upper :: "string \<Rightarrow> string" where
  "upper s = concat (map upper_char s)"

fun split :: "char \<Rightarrow> string \<Rightarrow> string list" where
  "split sep [] = [[]]"
| "split sep (c # cs) =
     (if c = sep then [] # split sep cs
      else (c # hd (split sep cs)) # tl (split sep cs))"

text \<open>
  \<open>int(s)\<close> for a string: surrounding white space is dropped, a sign may come first,
  then decimal digits, singly separated by underscores. \<open>None\<close> is the \<open>ValueError\<close>.
\<close>

definition is_space :: "char \<Rightarrow> bool" where
  "is_space c =
     (let n = (of_char c :: nat)
      in (9 \<le> n \<and> n \<le> 13) \<or> (28 \<le> n \<and> n \<le> 32) \<or> n = 133 \<or> n = 160)"

definition strip :: "string \<Rightarrow> string" where
  "strip s = dropWhile is_space (rev (dropWhile is_space (rev s)))"

definition is_digit :: "char \<Rightarrow> bool" where
  "is_digit c = (48 \<le> (of_char c :: nat) \<and> (of_char c :: nat) \<le> 57)"

fun int_digits :: "bool \<Rightarrow> int \<Rightarrow> string \<Rightarrow> int option" where
  "int_digits prev acc [] = (if prev then Some acc else None)"
| "int_digits prev acc (c # cs) =
     (if is_digit c then int_digits True (10 * acc + (int (of_char c) - 48)) cs
      else if c = CHR ''_'' \<and> prev then int_digits False acc cs
      else None)"

definition py_int :: "string \<Rightarrow> int option" where
  "py_int s =
     (case strip s of
        [] \<Rightarrow> None
      | c # cs \<Rightarrow>
          if c = CHR ''-'' then map_option uminus (int_digits False 0 cs)
          else if c = CHR ''+'' then int_digits False 0 cs
          else int_digits False 0 (c # cs))"

text \<open>\<open><\<close> on tuples of integers.\<close>

fun tuple_less :: "int list \<Rightarrow> int list \<Rightarrow> bool" where
  "tuple_less [] [] = False"
| "tuple_less [] (y # ys) = True"
| "tuple_less (x # xs) [] = False"
| "tuple_less (x # xs) (y # ys) = (x < y \<or> (x = y \<and> tuple_less xs ys))"

subsection \<open>JSON\<close>

text \<open>
  \<open>json.dumps\<close> with its default separators and \<open>ensure_ascii\<close>, on the values the
  code serialises.
\<close>

datatype json = JNull | JStr string | JList "json list" | JDict "(string \<times> json) list"

definition hex_digit :: "nat \<Rightarrow> char" where
  "hex_digit n = (if n < 10 then char_of (48 + n) else char_of (87 + n))"

definition escape_char :: "char \<Rightarrow> string" where
  "escape_char c =
     (let n = (of_char c :: nat)
      in if n = 34 then [CHR 0x5C, CHR 0x22]
         else if n = 92 then [CHR 0x5C, CHR 0x5C]
         else if n = 8 then [CHR 0x5C, CHR ''b'']
         else if n = 12 then [CHR 0x5C, CHR ''f'']
         else if n = 10 then [CHR 0x5C, CHR ''n'']
         else if n = 13 then [CHR 0x5C, CHR ''r'']
         else if n = 9 then [CHR 0x5C, CHR ''t'']
         else if 32 \<le> n \<and> n \<le> 126 then [c]
         else [CHR 0x5C, CHR ''u'', CHR ''0'', CHR ''0'', hex_digit (n div 16), hex_digit (n mod 16)])"

definition json_string :: "string \<Rightarrow> string" where
  "json_string s = CHR 0x22 # concat (map escape_char s) @ [CHR 0x22]"

fun join :: "string \<Rightarrow> string list \<Rightarrow> string" where
  "join sep [] = []"
| "join sep [x] = x"
| "join sep (x # y # ys) = x @ sep @ join sep (y # ys)"

fun json_dumps :: "json \<Rightarrow> string" where
  "json_dumps JNull = ''null''"
| "json_dumps (JStr s) = json_string s"
| "json_dumps (JList xs) = ''['' @ join '', '' (map json_dumps xs) @ '']''"
| "json_dumps (JDict kvs) =
     ''{'' @ join '', '' (map (\<lambda>kv. json_string (fst kv) @ '': '' @ json_dumps (snd kv)) kvs) @ ''}''"


subsection \<open>Constants\<close>

definition HTSGET_VERSION :: "int list" where
  "HTSGET_VERSION = [1, 1, 0]"

text \<open>
  The source writes this constant as a plain string literal, not as a formatted one, so
  its value is the text between the quotes, braces included.
\<close>

definition OK_RESPONSE_CONTENT_TYPE :: string where
  "OK_RESPONSE_CONTENT_TYPE =
     ''application/vnd.ga4gh.htsget.v{'' @ [CHR 0x27] @ ''.'' @ [CHR 0x27] @
     ''.join(HTSGET_VERSION)}+json; charset=utf-8''"

definition ERROR_RESPONSE_CONTENT_TYPE :: string where
  "ERROR_RESPONSE_CONTENT_TYPE = ''application/json''"

definition UnsupportedMediaTypeHttpError :: "string \<Rightarrow> http_error" where
  "UnsupportedMediaTypeHttpError media_type =
     \<lparr>status = 415, error_type = ''The requested media type is unsupported: '' @ media_type,
      args = [], cause = None, path = None\<rparr>"

subsection \<open>The calls on the request handler, as events\<close>

text \<open>
  What a handler does to the outside is the sequence of calls it makes on the
  \<open>BaseHTTPRequestHandler\<close> (\<open>send_response\<close>, \<open>send_error\<close>, \<open>send_header\<close>,
  \<open>end_headers\<close>, \<open>wfile.write\<close>) and on its collaborators (the read of
  \<open>index_resource.exists\<close>, \<open>create_index\<close>, \<open>add_resource\<close>). A run of a handler
  yields the calls it made and the exception it ended with, if any. \<open>Write s\<close> is the
  call \<open>wfile.write\<close> with the characters \<open>s\<close> as argument; the call is in the list
  whether it returns or raises.
\<close>

datatype 'r event =
    SendResponse nat
  | SendError nat
  | SendHeader string string
  | EndHeaders
  | Write string
  | IndexExists 'r
  | CreateIndex 'r 'r
  | AddResource 'r

type_synonym 'r outcome = "'r event list \<times> exn option"

text \<open>
  \<open>wfile\<close> is the binary stream that the standard library's \<open>StreamRequestHandler\<close>
  opens on the socket. The two calls of \<open>wfile.write\<close> in the repository pass it the
  \<open>str\<close> that \<open>json.dumps\<close> returns, and a binary stream refuses a \<open>str\<close>: the call
  raises this \<open>TypeError\<close> and nothing is written.
\<close>

definition str_write_error :: exn where
  "str_write_error =
     PyError ''TypeError''
       [''a bytes-like object is required, not '' @ CHR 0x27 # ''str'' @ [CHR 0x27]]"

subsection \<open>\<open>HtsgetHttpRequestHandler\<close>\<close>

type_synonym headers = "(string \<times> string) list"

text \<open>\<open>name in headers\<close> and \<open>headers[name]\<close>: the first field of that name, letter case ignored.\<close>

fun headers_get :: "headers \<Rightarrow> string \<Rightarrow> string option" where
  "headers_get [] name = None"
| "headers_get ((k, v) # hs) name = (if lower k = lower name then Some v else headers_get hs name)"

definition parse_version :: "string \<Rightarrow> int list option" where
  "parse_version s = those (map py_int (split CHR ''.'' s))"

definition check_headers :: "headers \<Rightarrow> http_error + unit" where
  "check_headers hs =
     (case headers_get hs ''Accept'' of
        None \<Rightarrow> Inr ()
      | Some accept \<Rightarrow>
          if \<not> startswith accept ''application/'' then Inl (UnsupportedMediaTypeHttpError accept)
          else
            (let accept_app = lower (drop 12 accept)
             in if accept_app = ''json'' then Inr ()
                else if startswith accept_app ''vnd.ga4gh.htsget.v'' \<and> endswith accept_app ''+json''
                then
                  (case parse_version (slice accept 18 5) of
                     None \<Rightarrow> Inl (UnsupportedMediaTypeHttpError accept)
                   | Some version \<Rightarrow>
                       if tuple_less version HTSGET_VERSION \<or> hd version > hd HTSGET_VERSION
                       then Inl (UnsupportedMediaTypeHttpError accept)
                       else Inr ())
                else Inl (UnsupportedMediaTypeHttpError accept)))"

definition handle_error :: "http_error \<Rightarrow> 'r outcome" where
  "handle_error err =
     (let sent = [SendError (status err),
                  SendHeader ''Content-type'' ERROR_RESPONSE_CONTENT_TYPE,
                  EndHeaders]
      in case message err of
           Inl e \<Rightarrow> (sent, Some e)
         | Inr msg \<Rightarrow>
             (sent @
              [Write (json_dumps
                 (JDict [(''htsget'', JDict [(''error'', JStr (error_type err)),
                                             (''message'', JStr msg)])]))],
              Some str_write_error))"

subsection \<open>\<open>RoutingHttpRequestHandler\<close>\<close>

text \<open>
  \<open>urllib.parse.urlparse\<close> is a parameter of the model; of its result the code reads
  \<open>path\<close> and \<open>query\<close>. A route handler is called with the rest of the path and the
  parsed URL, and answers through the request handler.
\<close>

record parsed_url =
  url_path :: string
  url_query :: string

type_synonym 'r route_handler = "string list \<Rightarrow> parsed_url \<Rightarrow> 'r outcome"

definition route_request ::
  "(string \<Rightarrow> parsed_url) \<Rightarrow> 'r route_handler routes \<Rightarrow> string \<Rightarrow> 'r outcome" where
  "route_request urlparse router request_path =
     (let parsed = urlparse request_path
      in if length (url_path parsed) = 0 \<or> \<not> startswith (url_path parsed) ''/''
         then ([], Some (HttpError (NotFoundHttpError (PathStr request_path))))
         else
           (let path_parts = split CHR ''/'' (drop 1 (url_path parsed))
            in case get_route_handler router path_parts of
                 Inl e \<Rightarrow> ([], Some (HttpError e))
               | Inr (route_handler, sub_route) \<Rightarrow> route_handler sub_route parsed))"

text \<open>The body of the \<open>try\<close> of \<open>do_GET\<close>: the headers are checked, then the request is routed.\<close>

definition try_body ::
  "(string \<Rightarrow> parsed_url) \<Rightarrow> 'r route_handler routes \<Rightarrow> headers \<Rightarrow> string \<Rightarrow> 'r outcome" where
  "try_body urlparse router hs request_path =
     (case check_headers hs of
        Inl err \<Rightarrow> ([], Some (HttpError err))
      | Inr u \<Rightarrow> route_request urlparse router request_path)"

text \<open>
  The \<open>except\<close> clauses of \<open>do_GET\<close>: an \<open>HttpError\<close> is handed to \<open>handle_error\<close>, any
  other exception is wrapped in an \<open>UnknownHttpError\<close> raised from it.
\<close>

definition except_clauses :: "'r outcome \<Rightarrow> 'r outcome" where
  "except_clauses run =
     (case run of
        (sent, None) \<Rightarrow> (sent, None)
      | (sent, Some (HttpError err)) \<Rightarrow>
          (case handle_error err of (sent', raised) \<Rightarrow> (sent @ sent', raised))
      | (sent, Some (PyError cls cause_args)) \<Rightarrow>
          (case handle_error (raise_from UnknownHttpError cause_args) of
             (sent', raised) \<Rightarrow> (sent @ sent', raised)))"

definition do_GET ::
  "(string \<Rightarrow> parsed_url) \<Rightarrow> 'r route_handler routes \<Rightarrow> headers \<Rightarrow> string \<Rightarrow> 'r outcome" where
  "do_GET urlparse router hs request_path =
     except_clauses (try_body urlparse router hs request_path)"

subsection \<open>\<open>ApiRouteHandler\<close>\<close>

text \<open>A value of the query dictionary: a string, or the list of strings of \<open>parse_qs\<close>.\<close>

datatype pyval = PStr string | PList "string list"

text \<open>
  The handler with its collaborators. The data store, the resources and the two abstract
  methods are not implemented in the repository; they are parameters. \<open>'r\<close> is the
  type of resources, \<open>'s\<close> the state of the world outside the handler (the files of the
  store), which \<open>create_index\<close> and \<open>add_resource\<close> change and \<open>exists\<close> reads.
\<close>

record ('r, 's) api_route_handler =
  default_format :: string
  index_format :: string
  resolve :: "string list \<Rightarrow> pyval \<Rightarrow> string \<Rightarrow> exn + ('r \<times> 'r)"
  exists :: "'s \<Rightarrow> 'r \<Rightarrow> bool"
  create_index :: "'s \<Rightarrow> 'r \<Rightarrow> 'r \<Rightarrow> exn + 's"
  add_resource :: "'s \<Rightarrow> 'r \<Rightarrow> 's"
  create_ticket_urls :: "'s \<Rightarrow> pyval \<Rightarrow> (string \<rightharpoonup> pyval) \<Rightarrow> 'r \<Rightarrow> 'r \<Rightarrow> exn + json"

record ('r, 's) handler_state =
  cache :: "'r \<rightharpoonup> string"
  store :: 's

text \<open>\<open>data_format.upper()\<close>: a list has no such method.\<close>

definition format_upper :: "pyval \<Rightarrow> exn + string" where
  "format_upper data_format =
     (case data_format of
        PStr s \<Rightarrow> Inr (upper s)
      | PList l \<Rightarrow>
          Inl (PyError ''AttributeError''
            [CHR 0x27 # ''list'' @ CHR 0x27 # '' object has no attribute '' @
             CHR 0x27 # ''upper'' @ [CHR 0x27]]))"

text \<open>
  The \<open>else\<close> branch of \<open>handle\<close> up to \<open>json.dumps\<close>: the index is created when it
  does not exist, and the ticket is built and serialised.
\<close>

definition make_ticket ::
  "('r, 's) api_route_handler \<Rightarrow> 's \<Rightarrow> pyval \<Rightarrow> (string \<rightharpoonup> pyval) \<Rightarrow> 'r \<Rightarrow> 'r \<Rightarrow>
   's \<times> 'r event list \<times> (exn + string)" where
  "make_ticket h s data_format query data_resource index_resource =
     (let (s1, sent, raised) =
        (if \<not> exists h s index_resource then
           (case create_index h s data_resource index_resource of
              Inl e \<Rightarrow>
                (s, [IndexExists index_resource, CreateIndex data_resource index_resource], Some e)
            | Inr s' \<Rightarrow>
                (add_resource h s' index_resource,
                 [IndexExists index_resource, CreateIndex data_resource index_resource,
                  AddResource index_resource], None))
         else (s, [IndexExists index_resource], None))
      in case raised of
           Some e \<Rightarrow> (s1, sent, Inl e)
         | None \<Rightarrow>
             (case create_ticket_urls h s1 data_format query data_resource index_resource of
                Inl e \<Rightarrow> (s1, sent, Inl e)
              | Inr ticket_urls \<Rightarrow>
                  (case format_upper data_format of
                     Inl e \<Rightarrow> (s1, sent, Inl e)
                   | Inr fmt \<Rightarrow>
                       (s1, sent,
                        Inr (json_dumps
                          (JDict [(''htsget'', JDict [(''format'', JStr fmt),
                                                      (''urls'', ticket_urls)])]))))))"

text \<open>The section under the lock: the ticket is stored unless the key is there already.\<close>

definition cache_store :: "('r \<rightharpoonup> string) \<Rightarrow> 'r \<Rightarrow> string \<Rightarrow> ('r \<rightharpoonup> string)" where
  "cache_store c data_resource ticket_str =
     (if data_resource \<notin> dom c then c(data_resource \<mapsto> ticket_str) else c)"

text \<open>
  The four calls that end \<open>handle\<close>. The last of them is \<open>wfile.write(ticket_str)\<close>
  with a \<open>str\<close>, so it raises \<open>str_write_error\<close>.
\<close>

definition send_ticket :: "string \<Rightarrow> 'r event list" where
  "send_ticket ticket_str =
     [SendResponse 200, SendHeader ''Content-Type'' OK_RESPONSE_CONTENT_TYPE, EndHeaders,
      Write ticket_str]"

text \<open>\<open>query.get('format', self.default_format)\<close>\<close>

definition query_format :: "('r, 's) api_route_handler \<Rightarrow> (string \<rightharpoonup> pyval) \<Rightarrow> pyval" where
  "query_format h query = (case query ''format'' of None \<Rightarrow> PStr (default_format h) | Some v \<Rightarrow> v)"

text \<open>
  \<open>handle\<close> in two parts. The first part runs up to the lock: the resources are
  resolved, the cache is looked up, and on a miss the ticket is made. It leaves either
  the cached ticket, or the key and the new ticket that the second part stores.
\<close>

datatype 'r pending = Hit string | Miss 'r string

definition handle_begin ::
  "('r, 's) api_route_handler \<Rightarrow> ('r, 's) handler_state \<Rightarrow> string list \<Rightarrow> (string \<rightharpoonup> pyval) \<Rightarrow>
   ('r, 's) handler_state \<times> 'r event list \<times> (exn + 'r pending)" where
  "handle_begin h st record_id query =
     (let data_format = query_format h query
      in case resolve h record_id data_format (index_format h) of
           Inl e \<Rightarrow> (st, [], Inl e)
         | Inr (data_resource, index_resource) \<Rightarrow>
             (case cache st data_resource of
                Some ticket_str \<Rightarrow> (st, [], Inr (Hit ticket_str))
              | None \<Rightarrow>
                  (case make_ticket h (store st) data_format query data_resource index_resource of
                     (s1, sent, Inl e) \<Rightarrow> (st\<lparr>store := s1\<rparr>, sent, Inl e)
                   | (s1, sent, Inr ticket_str) \<Rightarrow>
                       (st\<lparr>store := s1\<rparr>, sent, Inr (Miss data_resource ticket_str)))))"

text \<open>
  The second part: the section under the lock, and the response, which ends in the
  exception of the write.
\<close>

definition handle_finish ::
  "('r, 's) handler_state \<Rightarrow> 'r pending \<Rightarrow> ('r, 's) handler_state \<times> 'r outcome" where
  "handle_finish st p =
     (case p of
        Hit ticket_str \<Rightarrow> (st, send_ticket ticket_str, Some str_write_error)
      | Miss data_resource ticket_str \<Rightarrow>
          (st\<lparr>cache := cache_store (cache st) data_resource ticket_str\<rparr>,
           send_ticket ticket_str, Some str_write_error))"

definition handle ::
  "('r, 's) api_route_handler \<Rightarrow> ('r, 's) handler_state \<Rightarrow> string list \<Rightarrow> (string \<rightharpoonup> pyval) \<Rightarrow>
   ('r, 's) handler_state \<times> 'r outcome" where
  "handle h st record_id query =
     (case handle_begin h st record_id query of
        (st1, sent, Inl e) \<Rightarrow> (st1, sent, Some e)
      | (st1, sent, Inr p) \<Rightarrow>
          (case handle_finish st1 p of (st2, sent', raised) \<Rightarrow> (st2, sent @ sent', raised)))"

subsection \<open>Calls of \<open>handle\<close> in concurrent workers\<close>

text \<open>
  Every connection is served by a thread of its own, so calls of \<open>handle\<close> on one
  handler overlap. The cache is read once before the lock and written only under the
  lock, so a run of the server is an interleaving of first parts and second parts:
  \<open>Begin\<close> starts a call and runs its first part, \<open>Finish i\<close> lets the \<open>i\<close>-th call in
  flight run its second part.
\<close>

datatype action = Begin "string list" "string \<rightharpoonup> pyval" | Finish nat

record ('r, 's) workers =
  shared :: "('r, 's) handler_state"
  inflight :: "('r event list \<times> 'r pending) list"
  finished :: "'r outcome list"

definition step ::
  "('r, 's) api_route_handler \<Rightarrow> ('r, 's) workers \<Rightarrow> action \<Rightarrow> ('r, 's) workers" where
  "step h w a =
     (case a of
        Begin record_id query \<Rightarrow>
          (case handle_begin h (shared w) record_id query of
             (st1, sent, Inl e) \<Rightarrow> w\<lparr>shared := st1, finished := finished w @ [(sent, Some e)]\<rparr>
           | (st1, sent, Inr p) \<Rightarrow> w\<lparr>shared := st1, inflight := inflight w @ [(sent, p)]\<rparr>)
      | Finish i \<Rightarrow>
          if i < length (inflight w) then
            (case inflight w ! i of
               (sent, p) \<Rightarrow>
                 (case handle_finish (shared w) p of
                    (st2, sent', raised) \<Rightarrow>
                      \<lparr>shared = st2,
                       inflight = take i (inflight w) @ drop (Suc i) (inflight w),
                       finished = finished w @ [(sent @ sent', raised)]\<rparr>))
          else w)"

fun run_schedule ::
  "('r, 's) api_route_handler \<Rightarrow> ('r, 's) workers \<Rightarrow> action list \<Rightarrow> ('r, 's) workers" where
  "run_schedule h w [] = w"
| "run_schedule h w (a # as) = run_schedule h (step h w a) as"

subsection \<open>Several routes\<close>

text \<open>Registering several routes, one after the other, as \<open>create_default_router\<close> does.\<close>

fun add_routes :: "'h routes \<Rightarrow> (string list \<times> 'h) list \<Rightarrow> route_error + 'h routes" where
  "add_routes route_dict [] = Inr route_dict"
| "add_routes route_dict ((p, handler) # later) =
     (case add_route route_dict p handler of
        Inl e \<Rightarrow> Inl e
      | Inr d \<Rightarrow> add_routes d later)"

text \<open>\<open>create_default_router\<close>, with the three handlers it registers as arguments.\<close>

definition create_default_router :: "'h \<Rightarrow> 'h \<Rightarrow> 'h \<Rightarrow> route_error + 'h routes" where
  "create_default_router reads variants block =
     add_routes Map.empty [([''reads''], reads), ([''variants''], variants), ([''block''], block)]"

text \<open>
  Examples: a router with the three routes of the default router and a route \<open>a/b\<close>
  (handlers are numbers here), a handler whose collaborators resolve every record to
  the resources 0 and 1 and never fail, and a handler state with a ticket cached for
  resource 0.
\<close>

definition example_router :: "nat routes" where
  "example_router =
     (Map.empty(''a'' \<mapsto> Dict (Map.empty(''b'' \<mapsto> Handler 4))))
       (''reads'' \<mapsto> Handler 1, ''variants'' \<mapsto> Handler 2, ''block'' \<mapsto> Handler 3)"

definition example_handler :: "(nat, unit) api_route_handler" where
  "example_handler =
     \<lparr>default_format = ''BAM'', index_format = ''BAI'',
      resolve = (\<lambda>record_id data_format index_format. Inr (0, 1)),
      exists = (\<lambda>s r. False),
      create_index = (\<lambda>s data_resource index_resource. Inr s),
      add_resource = (\<lambda>s r. s),
      create_ticket_urls = (\<lambda>s data_format query data_resource index_resource. Inr JNull)\<rparr>"

definition example_workers :: "(nat, unit) workers" where
  "example_workers =
     \<lparr>shared = \<lparr>cache = Map.empty(0 \<mapsto> ''ticket''), store = ()\<rparr>, inflight = [], finished = []\<rparr>"

text \<open>A URL parser and a router for the examples.\<close>

definition example_urlparse :: "string \<Rightarrow> parsed_url" where
  "example_urlparse s = \<lparr>url_path = s, url_query = []\<rparr>"

definition echo_router :: "unit route_handler routes" where
  "echo_router =
     Map.empty(''reads'' \<mapsto> Handler (\<lambda>sub_route parsed. ([Write (concat sub_route)], None)))"

section \<open>Properties of the header size\<close>

subsection \<open>Decoding what was encoded\<close>

lemma uint_byte_of_nat: "uint (word_of_nat k :: byte) = int (k mod 256)"
  by (simp add: uint_nat unat_of_nat)

lemma length_le_bytes: "length (le_bytes k n) = k"
  by (induction k arbitrary: n) simp_all

lemma le_uint_le_bytes: "le_uint (le_bytes k n) = int (n mod 256 ^ k)"
proof (induction k arbitrary: n)
  case 0
  show ?case by simp
next
  case (Suc k)
  have "n mod (256 * 256 ^ k) = 256 * (n div 256 mod 256 ^ k) + n mod 256"
    by (rule mod_mult2_eq)
  then show ?case
    by (simp add: Suc.IH uint_byte_of_nat)
qed

lemma le_uint_le32: "n < 2 ^ 32 \<Longrightarrow> le_uint (le32 n) = int n"
  by (simp add: le32_def le_uint_le_bytes)

lemma le_uint_le16: "n < 2 ^ 16 \<Longrightarrow> le_uint (le16 n) = int n"
  by (simp add: le16_def le_uint_le_bytes)

lemma length_le32: "length (le32 n) = 4"
  by (simp add: le32_def length_le_bytes)

lemma length_le16: "length (le16 n) = 2"
  by (simp add: le16_def length_le_bytes)

lemma read_bytes_append: "n = int (length xs) \<Longrightarrow> read_bytes n (xs @ r) = Inr (xs, r)"
  by (simp add: read_bytes_def)

lemma read_int_le32: "n < 2 ^ 31 \<Longrightarrow> read_int (le32 n @ r) = Inr (int n, r)"
  by (simp add: read_int_def and_then_def read_bytes_append length_le32 le_uint_le32)

lemma read_uint_le32: "n < 2 ^ 32 \<Longrightarrow> read_uint (le32 n @ r) = Inr (int n, r)"
  by (simp add: read_uint_def and_then_def read_bytes_append length_le32 le_uint_le32)

lemma read_ushort_le16: "n < 2 ^ 16 \<Longrightarrow> read_ushort (le16 n @ r) = Inr (int n, r)"
  by (simp add: read_ushort_def and_then_def read_bytes_append length_le16 le_uint_le16)

lemma read_string_append: "read_string (int (length xs)) flag (xs @ r) = Inr (xs, r)"
  by (simp add: read_string_def read_bytes_append)

lemma read_refs_encoded:
  "list_all wf_ref refs \<Longrightarrow>
   read_refs (length refs) acc (concat (map encode_ref refs) @ rest) =
     Inr (acc + (\<Sum>ref\<leftarrow>refs. 8 + int (length (fst ref))), rest)"
proof (induction refs arbitrary: acc)
  case Nil
  then show ?case by simp
next
  case (Cons ref refs)
  from Cons.prems have rest: "list_all wf_ref refs" and "wf_ref ref"
    by simp_all
  then have wf: "length (fst ref) < 2 ^ 31" "snd ref < 2 ^ 31"
    by (simp_all add: wf_ref_def)
  show ?case
    using Cons.IH [OF rest]
    by (simp add: encode_ref_def and_then_def read_int_le32 [OF wf(1)] read_int_le32 [OF wf(2)]
        read_string_append algebra_simps)
qed

lemma uncompressed_header_size_encoded:
  assumes "length text < 2 ^ 31" and "length refs < 2 ^ 31" and "list_all wf_ref refs"
  shows "uncompressed_header_size (bam_header_bytes text refs @ rest) =
     Inr (12 + int (length text) + (\<Sum>ref\<leftarrow>refs. 8 + int (length (fst ref))))"
proof -
  have magic: "read_string 3 True (66 # 65 # 77 # r) = Inr ([66, 65, 77], r)" for r
    by (simp add: read_string_def read_bytes_def)
  have version: "read_byte (1 # r) = Inr (1, r)" for r
    by (simp add: read_byte_def read_bytes_def and_then_def)
  show ?thesis
    unfolding uncompressed_header_size_def bam_header_bytes_def
    by (simp add: magic version and_then_def read_int_le32 [OF assms(1)] read_int_le32 [OF assms(2)]
        read_string_append read_refs_encoded [OF assms(3)])
qed

lemma read_ubytes_append:
  "n = int (length xs) \<Longrightarrow> read_ubytes n (xs @ r) = Inr (map uint xs, r)"
  by (simp add: read_ubytes_def and_then_def read_bytes_append)

lemma read_ubytes_two: "read_ubytes 2 (a # b # r) = Inr ([uint a, uint b], r)"
  using read_ubytes_append [of 2 "[a, b]" r] by simp

lemma read_block_malformed:
  assumes "wf_sizes b" and "malformed b"
  shows "read_block (block_header_bytes b @ rest) = Inl (ValueError (block_error b))"
proof -
  from assms(1) have sz: "length (fixed b) = 4" "mtime b < 2 ^ 32" "length (xfl_os b) = 2"
    "xlen b < 2 ^ 16" "slen b < 2 ^ 16"
    by (simp_all add: wf_sizes_def)
  have 1: "read_ubytes 4 (fixed b @ r) = Inr (map uint (fixed b), r)" for r
    by (rule read_ubytes_append) (simp add: sz)
  have 3: "read_ubytes 2 (xfl_os b @ r) = Inr (map uint (xfl_os b), r)" for r
    by (rule read_ubytes_append) (simp add: sz)
  show ?thesis
    using assms(2)
    unfolding read_block_def block_header_bytes_def
    by (auto simp: 1 3 and_then_def read_uint_le32 [OF sz(2)] read_ushort_le16 [OF sz(4)]
        read_ushort_le16 [OF sz(5)] read_ubytes_two malformed_def block_error_def)
qed

lemma read_block_wf:
  assumes "wf_block b"
  shows "read_block (block_bytes b @ rest) = Inr (int (bsize b), int (isize b), rest)"
proof -
  from assms have sz: "length (fixed b) = 4" "mtime b < 2 ^ 32" "length (xfl_os b) = 2"
    and f: "xlen b = 6" "si1 b = 66" "si2 b = 67" "slen b = 2"
    and bs: "25 \<le> bsize b" "bsize b < 2 ^ 16" "length (cdata b) = bsize b - 25"
    and t: "crc32 b < 2 ^ 32" "isize b < 2 ^ 32"
    by (simp_all add: wf_block_def wf_sizes_def)
  have 1: "read_ubytes 4 (fixed b @ r) = Inr (map uint (fixed b), r)" for r
    by (rule read_ubytes_append) (simp add: sz)
  have 3: "read_ubytes 2 (xfl_os b @ r) = Inr (map uint (xfl_os b), r)" for r
    by (rule read_ubytes_append) (simp add: sz)
  have 6: "read_ushort (le16 6 @ r) = Inr (6, r)" for r
    using read_ushort_le16 [of 6 r] by simp
  have 2: "read_ushort (le16 2 @ r) = Inr (2, r)" for r
    using read_ushort_le16 [of 2 r] by simp
  have c: "read_ubytes (int (bsize b) - 25) (cdata b @ r) = Inr (map uint (cdata b), r)" for r
    by (rule read_ubytes_append) (use bs in simp)
  show ?thesis
    unfolding read_block_def block_bytes_def block_header_bytes_def
    by (simp add: 1 3 6 2 c f and_then_def read_uint_le32 [OF sz(2)] read_ubytes_two ushort_def
        read_ushort_le16 [OF bs(2)] read_uint_le32 [OF t(1)] read_uint_le32 [OF t(2)])
qed

lemma scan_blocks_wf_prefix:
  assumes "list_all wf_block blocks"
    and "block_size + (\<Sum>b\<leftarrow>butlast blocks. int (isize b)) < uncompressed_size"
  shows "scan_blocks uncompressed_size (concat (map block_bytes blocks) @ rest) header_size block_size =
     scan_blocks uncompressed_size rest
       (header_size + (\<Sum>b\<leftarrow>blocks. int (bsize b))) (block_size + (\<Sum>b\<leftarrow>blocks. int (isize b)))"
  using assms
proof (induction blocks arbitrary: header_size block_size)
  case Nil
  show ?case by simp
next
  case (Cons b blocks)
  from Cons.prems(1) have wf: "wf_block b" and wfs: "list_all wf_block blocks"
    by simp_all
  have nonneg: "0 \<le> (\<Sum>b\<leftarrow>butlast blocks. int (isize b))"
    by (rule sum_list_nonneg) auto
  show ?case
  proof (cases "blocks = []")
    case True
    with Cons.prems(2) have lt: "block_size < uncompressed_size" by simp
    show ?thesis
      using True lt read_block_wf [OF wf, of rest]
      by (subst scan_blocks.simps) simp
  next
    case False
    with Cons.prems(2) have lt: "block_size < uncompressed_size"
      and lt': "(block_size + int (isize b)) + (\<Sum>b\<leftarrow>butlast blocks. int (isize b)) < uncompressed_size"
      using nonneg by simp_all
    have "scan_blocks uncompressed_size (concat (map block_bytes (b # blocks)) @ rest) header_size block_size =
        scan_blocks uncompressed_size (concat (map block_bytes blocks) @ rest)
          (header_size + int (bsize b)) (block_size + int (isize b))"
      using lt read_block_wf [OF wf, of "concat (map block_bytes blocks) @ rest"]
      by (subst scan_blocks.simps) simp
    also have "\<dots> = scan_blocks uncompressed_size rest
        (header_size + int (bsize b) + (\<Sum>b\<leftarrow>blocks. int (bsize b)))
        (block_size + int (isize b) + (\<Sum>b\<leftarrow>blocks. int (isize b)))"
      by (rule Cons.IH [OF wfs lt'])
    finally show ?thesis
      by (simp add: add.assoc)
  qed
qed

lemma scan_blocks_done:
  "\<not> block_size < uncompressed_size \<Longrightarrow>
   scan_blocks uncompressed_size r header_size block_size = Inr (header_size + 1)"
  by (subst scan_blocks.simps) simp

lemma scan_blocks_step:
  "block_size < uncompressed_size \<Longrightarrow>
   scan_blocks uncompressed_size r header_size block_size =
     (case read_block r of
        Inl e \<Rightarrow> Inl e
      | Inr (bsz, isz, r') \<Rightarrow>
          scan_blocks uncompressed_size r' (header_size + bsz) (block_size + isz))"
  by (subst scan_blocks.simps) simp

lemma read_block_empty: "read_block [] = Inl StructError"
  by (simp add: read_block_def read_ubytes_def read_bytes_def and_then_def)

lemma empty_header_size: "uncompressed_header_size (bam_header_bytes [] []) = Inr 12"
  using uncompressed_header_size_encoded [of "[]" "[]" "[]"] by simp

lemma wf_example_block: "n < 2 ^ 32 \<Longrightarrow> wf_block (example_block n)"
  by (simp add: wf_block_def wf_sizes_def example_block_def)

lemma py_min_eq_Min: "xs \<noteq> [] \<Longrightarrow> py_min xs = Inr (Min (set xs))"
  by (cases xs) (simp_all add: py_min_def Min.set_eq_fold [symmetric])

subsection \<open>The claims about \<open>get_bam_header_size\<close>\<close>

text \<open>
  C1 (as amended). Pass 1 of the computation without an index: for a well-formed
  decompressed BAM header with a header text of length \<open>L\<close> and reference names of
  lengths \<open>ln_1 .. ln_N\<close>, whatever follows the header, the uncompressed size that
  \<open>get_bam_header_size\<close> computes is \<open>12 + L + \<Sum>(8 + ln_i)\<close>: 4 bytes of magic, the
  4-byte length of the text, the text, the 4-byte count of references, and per
  reference the 4-byte length of the name, the name and the 4-byte length of the
  sequence.
\<close>

theorem pass1_uncompressed_size:
  assumes "length text < 2 ^ 31" and "length refs < 2 ^ 31" and "list_all wf_ref refs"
  shows "uncompressed_header_size (bam_header_bytes text refs @ rest) =
     Inr (12 + int (length text) + (\<Sum>ref\<leftarrow>refs. 8 + int (length (fst ref))))"
  using assms by (rule uncompressed_header_size_encoded)

theorem pass1_uncompressed_size_witness:
  "list_all wf_ref [([99, 104, 114], 1000)] \<and>
   uncompressed_header_size (bam_header_bytes [72, 68] [([99, 104, 114], 1000)] @ [7]) = Inr 25"
proof -
  have wf: "list_all wf_ref [([99, 104, 114], 1000)]"
    by (simp add: wf_ref_def)
  show ?thesis
    using wf pass1_uncompressed_size [of "[72, 68]" "[([99, 104, 114], 1000)]" "[7]"] by simp
qed

text \<open>
  C1 as the spec states it, \<open>4 + 4 + L + \<Sum>(8 + ln_i)\<close>, fails on the empty header
  (no text, no reference): the code computes 12, the formula gives 8.
\<close>

theorem pass1_not_spec_formula:
  "uncompressed_header_size (bam_header_bytes [] []) \<noteq> Inr (spec_header_size 0 [])"
  by (simp add: empty_header_size spec_header_size_def)

text \<open>
  C2 (as amended). Pass 2, end to end: for a file whose header has no text and no
  reference (uncompressed size 12) and which consists of one well-formed block whose
  declared uncompressed size (ISIZE) is exactly 12 and whose declared BSIZE is \<open>K\<close>,
  \<open>get_bam_header_size\<close> without an index stops after that block and returns
  \<open>K + 1\<close>.
\<close>

theorem single_block_scan:
  assumes "wf_block b" and "isize b = 12"
  shows "get_bam_header_size \<lparr>inflated = bam_header_bytes [] [], raw = block_bytes b\<rparr> None =
     Inr (int (bsize b) + 1)"
proof -
  have "scan_blocks 12 (block_bytes b @ []) 0 0 = scan_blocks 12 [] (int (bsize b)) 12"
    by (simp add: scan_blocks_step read_block_wf [OF assms(1), of "[]", simplified] assms(2))
  also have "\<dots> = Inr (int (bsize b) + 1)"
    by (simp add: scan_blocks_done)
  finally show ?thesis
    by (simp add: get_bam_header_size_def empty_header_size and_then_def)
qed

theorem single_block_scan_witness:
  "wf_block (example_block 12) \<and> isize (example_block 12) = 12 \<and>
   get_bam_header_size
     \<lparr>inflated = bam_header_bytes [] [], raw = block_bytes (example_block 12)\<rparr> None = Inr 26"
proof -
  have wf: "wf_block (example_block 12)"
    by (simp add: wf_example_block)
  have sz: "isize (example_block 12) = 12" "bsize (example_block 12) = 25"
    by (simp_all add: example_block_def)
  show ?thesis
    using wf sz single_block_scan [OF wf sz(1)] by simp
qed

text \<open>
  C2 as the spec states it fails: with a declared ISIZE of 8 the loop does not stop
  after the block (8 is less than the 12 of pass 1), reads past the end of the file
  and raises; it does not return \<open>K + 1 = 26\<close>.
\<close>

theorem single_block_isize_8_fails:
  "wf_block (example_block 8) \<and> isize (example_block 8) = 8 \<and>
   get_bam_header_size
     \<lparr>inflated = bam_header_bytes [] [], raw = block_bytes (example_block 8)\<rparr> None
     = Inl StructError \<and>
   get_bam_header_size
     \<lparr>inflated = bam_header_bytes [] [], raw = block_bytes (example_block 8)\<rparr> None
     \<noteq> Inr (int (bsize (example_block 8)) + 1)"
proof -
  have wf: "wf_block (example_block 8)"
    by (simp add: wf_example_block)
  have sz: "isize (example_block 8) = 8" "bsize (example_block 8) = 25"
    by (simp_all add: example_block_def)
  have "scan_blocks 12 (block_bytes (example_block 8) @ []) 0 0 = scan_blocks 12 [] 25 8"
    by (simp add: scan_blocks_step read_block_wf [OF wf, of "[]", simplified] sz)
  also have "\<dots> = Inl StructError"
    by (simp add: scan_blocks_step read_block_empty)
  finally show ?thesis
    using wf sz by (simp add: get_bam_header_size_def empty_header_size and_then_def)
qed

text \<open>
  C3. With an index resource whose parsed index has at least one interval,
  \<open>get_bam_header_size\<close> returns the least file offset over all intervals of all
  reference entries; the witness is the index with the offsets 500, 200 and 800,
  for which it returns 200.
\<close>

theorem index_path_minimum:
  assumes "concat (map intervals (ref_indexes index)) \<noteq> []"
  shows "get_bam_header_size bam_resource (Some index) =
     Inr (Min (file_offset ` set (concat (map intervals (ref_indexes index)))))"
proof -
  from assms have "index_offsets index \<noteq> []"
    by (simp add: index_offsets_def)
  then have "py_min (index_offsets index) = Inr (Min (set (index_offsets index)))"
    by (rule py_min_eq_Min)
  then show ?thesis
    by (simp add: get_bam_header_size_def index_offsets_def)
qed

theorem index_path_minimum_witness:
  "concat (map intervals (ref_indexes example_index)) \<noteq> [] \<and>
   get_bam_header_size \<lparr>inflated = [], raw = []\<rparr> (Some example_index) = Inr 200"
proof -
  have ne: "concat (map intervals (ref_indexes example_index)) \<noteq> []"
    by (simp add: example_index_def)
  show ?thesis
    using ne index_path_minimum [OF ne, of "\<lparr>inflated = [], raw = []\<rparr>"]
    by (simp add: example_index_def)
qed

text \<open>
  C4. A block header that the scan reaches (the blocks before it are well-formed and
  their declared uncompressed sizes add up to less than the size of pass 1) and whose
  XLEN is not 6, or whose subfield identifiers are not (66, 67), or whose subfield
  length is not 2, makes \<open>get_bam_header_size\<close> raise a \<open>ValueError\<close>; no offset is
  returned.
\<close>

theorem malformed_block_header_is_fatal:
  assumes "uncompressed_header_size (inflated bam_resource) = Inr uncompressed_size"
    and "raw bam_resource = concat (map block_bytes blocks) @ block_header_bytes b @ rest"
    and "list_all wf_block blocks"
    and "(\<Sum>b\<leftarrow>blocks. int (isize b)) < uncompressed_size"
    and "wf_sizes b" and "malformed b"
  shows "get_bam_header_size bam_resource None = Inl (ValueError (block_error b))"
proof -
  have "(\<Sum>b\<leftarrow>butlast blocks. int (isize b)) \<le> (\<Sum>b\<leftarrow>blocks. int (isize b))"
    by (cases blocks rule: rev_cases) simp_all
  with assms(4) have "0 + (\<Sum>b\<leftarrow>butlast blocks. int (isize b)) < uncompressed_size"
    by simp
  from scan_blocks_wf_prefix [OF assms(3) this, of "block_header_bytes b @ rest" 0]
  have "scan_blocks uncompressed_size (raw bam_resource) 0 0 =
      scan_blocks uncompressed_size (block_header_bytes b @ rest)
        (\<Sum>b\<leftarrow>blocks. int (bsize b)) (\<Sum>b\<leftarrow>blocks. int (isize b))"
    by (simp add: assms(2))
  also have "\<dots> = Inl (ValueError (block_error b))"
    by (simp add: scan_blocks_step [OF assms(4)] read_block_malformed [OF assms(5, 6)])
  finally show ?thesis
    by (simp add: get_bam_header_size_def assms(1) and_then_def)
qed

theorem malformed_block_header_is_fatal_witness:
  "wf_sizes bad_header \<and> malformed bad_header \<and>
   get_bam_header_size
     \<lparr>inflated = bam_header_bytes [] [],
      raw = concat (map block_bytes [example_block 8]) @ block_header_bytes bad_header @ [1, 2, 3]\<rparr>
     None = Inl (ValueError ''Extra RFC1952 subfields not yet supported'')"
proof -
  let ?res = "\<lparr>inflated = bam_header_bytes [] [],
      raw = concat (map block_bytes [example_block 8]) @ block_header_bytes bad_header @ [1, 2, 3]\<rparr>"
  have 1: "uncompressed_header_size (inflated ?res) = Inr 12"
    by (simp add: empty_header_size)
  have 2: "raw ?res = concat (map block_bytes [example_block 8]) @ block_header_bytes bad_header @ [1, 2, 3]"
    by simp
  have 3: "list_all wf_block [example_block 8]"
    by (simp add: wf_example_block)
  have 4: "(\<Sum>b\<leftarrow>[example_block 8]. int (isize b)) < 12"
    by (simp add: example_block_def)
  have 5: "wf_sizes bad_header"
    by (simp add: wf_sizes_def bad_header_def example_block_def)
  have 6: "malformed bad_header"
    by (simp add: malformed_def bad_header_def example_block_def)
  have 7: "block_error bad_header = ''Extra RFC1952 subfields not yet supported''"
    by (simp add: block_error_def bad_header_def example_block_def)
  show ?thesis
    using 5 6 malformed_block_header_is_fatal [OF 1 2 3 4 5 6] by (simp only: 7 simp_thms)
qed

section \<open>Properties of the router\<close>

lemma walk_add_route:
  "add_route d p h = Inr d' \<Longrightarrow> walk q d' (p @ extra) = Inr (h, extra)"
proof (induction d p h arbitrary: d' rule: add_route.induct)
  case (1 route_dict handler)
  then show ?case by simp
next
  case (2 route_dict part handler)
  then show ?case by auto
next
  case (3 route_dict part v va handler)
  show ?case
  proof (cases "route_dict part")
    case None
    with "3.prems" obtain d0 where d0: "add_route Map.empty (v # va) handler = Inr d0"
      and d': "d' = route_dict(part \<mapsto> Dict d0)"
      by (auto split: sum.splits)
    have "walk q d0 ((v # va) @ extra) = Inr (handler, extra)"
      using "3.IH"(1) [OF None d0] .
    then show ?thesis
      by (simp add: d')
  next
    case (Some n)
    show ?thesis
    proof (cases n)
      case (Handler h')
      with Some "3.prems" show ?thesis by simp
    next
      case (Dict sub)
      with Some "3.prems" obtain d0 where d0: "add_route sub (v # va) handler = Inr d0"
        and d': "d' = route_dict(part \<mapsto> Dict d0)"
        by (auto split: sum.splits)
      have "walk q d0 ((v # va) @ extra) = Inr (handler, extra)"
        using "3.IH"(2) [OF Some Dict d0] .
      then show ?thesis
        by (simp add: d')
    qed
  qed
qed

lemma walk_absent:
  "descend d pre = Some d' \<Longrightarrow> d' s = None \<Longrightarrow>
   walk q d (pre @ s # post) = Inl (NotFoundHttpError (PathParts q))"
  by (induction d pre rule: descend.induct) (auto split: option.splits node.splits)

lemma walk_inner:
  "descend d p = Some d' \<Longrightarrow> walk q d p = Inl (NotFoundHttpError (PathParts q))"
  by (induction d p rule: descend.induct) (auto split: option.splits node.splits)

lemma walk_add_route_other:
  "add_route d p h = Inr d' \<Longrightarrow> \<not> prefix p q \<Longrightarrow> walk x d' q = walk x d q"
proof (induction d p h arbitrary: d' q rule: add_route.induct)
  case (1 route_dict handler)
  then show ?case by simp
next
  case (2 route_dict part handler)
  then show ?case by (cases q) auto
next
  case (3 route_dict part v va handler)
  show ?case
  proof (cases q)
    case Nil
    then show ?thesis by simp
  next
    case (Cons c cs)
    show ?thesis
    proof (cases "c = part")
      case False
      with "3.prems"(1) Cons show ?thesis
        by (auto split: option.splits node.splits sum.splits)
    next
      case True
      with "3.prems"(2) Cons have np: "\<not> prefix (v # va) cs" by simp
      show ?thesis
      proof (cases "route_dict part")
        case None
        with "3.prems"(1) obtain d0 where d0: "add_route Map.empty (v # va) handler = Inr d0"
          and d': "d' = route_dict(part \<mapsto> Dict d0)"
          by (auto split: sum.splits)
        have "walk x d0 cs = walk x Map.empty cs"
          using "3.IH"(1) [OF None d0 np] .
        also have "\<dots> = Inl (NotFoundHttpError (PathParts x))"
          by (cases cs) simp_all
        finally show ?thesis
          using None True Cons by (simp add: d')
      next
        case (Some n)
        show ?thesis
        proof (cases n)
          case (Handler h')
          with Some "3.prems"(1) show ?thesis by simp
        next
          case (Dict sub)
          with Some "3.prems"(1) obtain d0 where d0: "add_route sub (v # va) handler = Inr d0"
            and d': "d' = route_dict(part \<mapsto> Dict d0)"
            by (auto split: sum.splits)
          have "walk x d0 cs = walk x sub cs"
            using "3.IH"(2) [OF Some Dict d0 np] .
          then show ?thesis
            using Some Dict True Cons by (simp add: d')
        qed
      qed
    qed
  qed
qed

lemma walk_add_routes_other:
  "add_routes d later = Inr d' \<Longrightarrow> list_all (\<lambda>ph. \<not> prefix (fst ph) q) later \<Longrightarrow>
   walk x d' q = walk x d q"
proof (induction later arbitrary: d)
  case Nil
  then show ?case by simp
next
  case (Cons ph later)
  obtain p h where ph: "ph = (p, h)" by (cases ph)
  with Cons.prems(1) obtain d1 where d1: "add_route d p h = Inr d1"
    and rest: "add_routes d1 later = Inr d'"
    by (auto split: sum.splits)
  from Cons.prems(2) ph have np: "\<not> prefix p q" and nps: "list_all (\<lambda>ph. \<not> prefix (fst ph) q) later"
    by simp_all
  have "walk x d' q = walk x d1 q"
    using Cons.IH [OF rest nps] .
  also have "\<dots> = walk x d q"
    using walk_add_route_other [OF d1 np] .
  finally show ?case .
qed

lemma default_router_resolves:
  "\<exists>router. create_default_router reads variants block = Inr router \<and>
     get_route_handler router (''reads'' # sub_route) = Inr (reads, sub_route) \<and>
     get_route_handler router (''variants'' # sub_route) = Inr (variants, sub_route) \<and>
     get_route_handler router (''block'' # sub_route) = Inr (block, sub_route)"
  by (simp add: create_default_router_def get_route_handler_def)

text \<open>
  C5. A path \<open>p\<close> registered with handler \<open>h\<close> resolves to \<open>(h, [])\<close>, and \<open>p @ extra\<close>
  resolves to \<open>(h, extra)\<close>; this stays so through later registrations of paths that
  do not begin \<open>p @ extra\<close>. A path whose walk meets a segment that the current node
  does not have, or which ends on an inner node, fails with \<open>NotFoundHttpError\<close>.
\<close>

theorem router_resolution:
  "(add_route routes p h = Inr r1 \<longrightarrow> add_routes r1 later = Inr r2 \<longrightarrow>
      list_all (\<lambda>ph. \<not> prefix (fst ph) (p @ extra)) later \<longrightarrow>
      get_route_handler r2 p = Inr (h, []) \<and> get_route_handler r2 (p @ extra) = Inr (h, extra)) \<and>
   (descend router pre = Some d \<longrightarrow> d part = None \<longrightarrow>
      get_route_handler router (pre @ part # post) =
        Inl (NotFoundHttpError (PathParts (pre @ part # post)))) \<and>
   (descend router q = Some d \<longrightarrow>
      get_route_handler router q = Inl (NotFoundHttpError (PathParts q)))"
proof (intro conjI impI)
  assume a: "add_route routes p h = Inr r1" and l: "add_routes r1 later = Inr r2"
    and n: "list_all (\<lambda>ph. \<not> prefix (fst ph) (p @ extra)) later"
  from n have n0: "list_all (\<lambda>ph. \<not> prefix (fst ph) p) later"
    by (induction later) (auto dest: prefix_prefix)
  have "walk p r2 p = walk p r1 p"
    by (rule walk_add_routes_other [OF l n0])
  also have "\<dots> = Inr (h, [])"
    using walk_add_route [OF a, of p "[]"] by simp
  finally show "get_route_handler r2 p = Inr (h, [])"
    by (simp add: get_route_handler_def)
  have "walk (p @ extra) r2 (p @ extra) = walk (p @ extra) r1 (p @ extra)"
    by (rule walk_add_routes_other [OF l n])
  also have "\<dots> = Inr (h, extra)"
    by (rule walk_add_route [OF a])
  finally show "get_route_handler r2 (p @ extra) = Inr (h, extra)"
    by (simp add: get_route_handler_def)
next
  assume "descend router pre = Some d" and "d part = None"
  then show "get_route_handler router (pre @ part # post) =
      Inl (NotFoundHttpError (PathParts (pre @ part # post)))"
    by (simp add: get_route_handler_def walk_absent)
next
  assume "descend router q = Some d"
  then show "get_route_handler router q = Inl (NotFoundHttpError (PathParts q))"
    by (simp add: get_route_handler_def walk_inner)
qed

theorem router_resolution_witness:
  "get_route_handler example_router [''reads''] = Inr (1, []) \<and>
   get_route_handler example_router ([''reads''] @ [''NA12878'', ''chr1'']) =
     Inr (1, [''NA12878'', ''chr1'']) \<and>
   get_route_handler example_router ([''a''] @ ''c'' # [''d'']) =
     Inl (NotFoundHttpError (PathParts ([''a''] @ ''c'' # [''d'']))) \<and>
   get_route_handler example_router [''a''] = Inl (NotFoundHttpError (PathParts [''a'']))"
proof -
  let ?r0 = "Map.empty(''a'' \<mapsto> Dict (Map.empty(''b'' \<mapsto> Handler (4::nat))))"
  let ?later = "[([''variants''], 2::nat), ([''block''], 3)]"
  have 1: "add_route ?r0 [''reads''] 1 = Inr (?r0(''reads'' \<mapsto> Handler 1))"
    by simp
  have 2: "add_routes (?r0(''reads'' \<mapsto> Handler 1)) ?later = Inr example_router"
    by (simp add: example_router_def)
  have 3: "list_all (\<lambda>ph. \<not> prefix (fst ph) ([''reads''] @ [''NA12878'', ''chr1''])) ?later"
    by simp
  have 4: "descend example_router [''a''] = Some (Map.empty(''b'' \<mapsto> Handler 4))"
    by (simp add: example_router_def)
  have 5: "(Map.empty(''b'' \<mapsto> Handler (4::nat))) ''c'' = None"
    by simp
  show ?thesis
    using router_resolution [where routes = ?r0 and p = "[''reads'']" and h = 1
        and ?r1.0 = "?r0(''reads'' \<mapsto> Handler 1)" and later = ?later and ?r2.0 = example_router
        and extra = "[''NA12878'', ''chr1'']" and router = example_router and pre = "[''a'']"
        and d = "Map.empty(''b'' \<mapsto> Handler 4)" and part = "''c''" and post = "[''d'']"
        and q = "[''a'']"] 1 2 3 4 5
    by blast
qed

section \<open>Properties of the request handler\<close>

text \<open>
  C6 fails on the code. The version is cut out of \<open>accept\<close>, not out of
  \<open>accept_app\<close>: \<open>accept[18:-5]\<close> begins in the middle of \<open>ga4gh\<close>, its first
  dot-separated piece is \<open>4gh\<close>, \<open>int\<close> raises, and the request is rejected.
\<close>

theorem versioned_accept_is_rejected:
  "check_headers [(''Accept'', ''application/vnd.ga4gh.htsget.v1.1.0+json'')] =
     Inl (UnsupportedMediaTypeHttpError ''application/vnd.ga4gh.htsget.v1.1.0+json'')"
  by code_simp

text \<open>
  C8 fails on the code for the 415 error. \<open>UnsupportedMediaTypeHttpError\<close> passes its
  descriptive text where \<open>error_type\<close> is expected and no \<open>args\<close>, unlike
  \<open>NotFoundHttpError\<close>: the \<open>error\<close> field is not the kind name, and reading the
  message raises, so that no body is written.
\<close>

theorem unsupported_media_type_response:
  "do_GET urlparse router [(''Accept'', ''text/plain'')] request_path =
     ([SendError 415, SendHeader ''Content-type'' ''application/json'', EndHeaders],
      Some (PyError ''AttributeError''
        [CHR 0x27 # ''NoneType'' @ CHR 0x27 # '' object has no attribute '' @
         CHR 0x27 # ''args'' @ [CHR 0x27]])) \<and>
   error_type (UnsupportedMediaTypeHttpError ''text/plain'') =
     ''The requested media type is unsupported: text/plain''"
proof -
  have "check_headers [(''Accept'', ''text/plain'')] = Inl (UnsupportedMediaTypeHttpError ''text/plain'')"
    by code_simp
  then show ?thesis
    by (simp add: do_GET_def try_body_def except_clauses_def handle_error_def message_def
        UnsupportedMediaTypeHttpError_def ERROR_RESPONSE_CONTENT_TYPE_def)
qed

text \<open>
  For comparison, the calls for a \<open>NotFoundHttpError\<close>: kind name and text are in the
  body that is passed to the write (which raises, as every write of a \<open>str\<close> does).
\<close>

lemma not_found_response:
  "handle_error (NotFoundHttpError p) =
     ([SendError 404, SendHeader ''Content-type'' ''application/json'', EndHeaders,
       Write (''{'' @ json_string ''htsget'' @ '': {'' @ json_string ''error'' @ '': '' @
              json_string ''NotFound'' @ '', '' @ json_string ''message'' @ '': '' @
              json_string ''The resource requested was not found'' @ ''}}'')],
      Some str_write_error)"
  by (simp add: handle_error_def message_def NotFoundHttpError_def ERROR_RESPONSE_CONTENT_TYPE_def)

text \<open>
  C9 fails on the code. The header of a ticket response is the text of the string
  literal, with the braces and the expression between them; the numerals 1.1.0 of the
  supported version do not occur in it.
\<close>

theorem ticket_content_type_is_template_text:
  "send_ticket ticket_str =
     [SendResponse 200,
      SendHeader ''Content-Type''
        (''application/vnd.ga4gh.htsget.v{'' @ [CHR 0x27] @ ''.'' @ [CHR 0x27] @
         ''.join(HTSGET_VERSION)}+json; charset=utf-8''),
      EndHeaders, Write ticket_str] \<and>
   OK_RESPONSE_CONTENT_TYPE \<noteq> ''application/vnd.ga4gh.htsget.v1.1.0+json; charset=utf-8''"
  by (simp add: send_ticket_def OK_RESPONSE_CONTENT_TYPE_def)

text \<open>
  C10. A request without an \<open>Accept\<close> header passes \<open>check_headers\<close>, and \<open>do_GET\<close> goes
  on to route it.
\<close>

theorem no_accept_header_passes:
  assumes "headers_get hs ''Accept'' = None"
  shows "check_headers hs = Inr () \<and>
     try_body urlparse router hs request_path = route_request urlparse router request_path \<and>
     do_GET urlparse router hs request_path =
       except_clauses (route_request urlparse router request_path)"
  using assms by (simp add: check_headers_def try_body_def do_GET_def)

theorem no_accept_header_passes_witness:
  "headers_get [(''Host'', ''localhost'')] ''Accept'' = None \<and>
   check_headers [(''Host'', ''localhost'')] = Inr () \<and>
   do_GET example_urlparse echo_router [(''Host'', ''localhost'')] ''/reads/NA12878'' =
     ([Write ''NA12878''], None)"
proof -
  have h: "headers_get [(''Host'', ''localhost'')] ''Accept'' = None"
    by code_simp
  have r: "route_request example_urlparse echo_router ''/reads/NA12878'' =
      ([Write ''NA12878''], None)"
    by (simp add: route_request_def startswith_def get_route_handler_def example_urlparse_def
        echo_router_def)
  note t = no_accept_header_passes [OF h, of example_urlparse echo_router "''/reads/NA12878''"]
  from t have "do_GET example_urlparse echo_router [(''Host'', ''localhost'')] ''/reads/NA12878'' =
      except_clauses (route_request example_urlparse echo_router ''/reads/NA12878'')"
    by blast
  also have "\<dots> = ([Write ''NA12878''], None)"
    by (simp add: r except_clauses_def)
  finally show ?thesis
    using h t by blast
qed

section \<open>Properties of the ticket cache\<close>

lemma cache_store_keeps: "c k = Some v \<Longrightarrow> cache_store c k' s k = Some v"
  by (auto simp: cache_store_def)

lemma handle_begin_cache: "cache (fst (handle_begin h st record_id query)) = cache st"
  by (auto simp: handle_begin_def Let_def split: sum.splits option.splits prod.splits)

lemma handle_finish_keeps:
  "cache st k = Some v \<Longrightarrow> cache (fst (handle_finish st p)) k = Some v"
  by (cases p) (simp_all add: handle_finish_def cache_store_keeps)

lemma handle_begin_hit:
  "cache st k = Some v \<Longrightarrow>
   resolve h record_id (query_format h query) (index_format h) = Inr (k, idx) \<Longrightarrow>
   handle_begin h st record_id query = (st, [], Inr (Hit v))"
  by (simp add: handle_begin_def)

lemma step_keeps:
  "cache (shared w) k = Some v \<Longrightarrow> cache (shared (step h w a)) k = Some v"
proof (cases a)
  case (Begin record_id query)
  assume c: "cache (shared w) k = Some v"
  obtain st1 sent r where b: "handle_begin h (shared w) record_id query = (st1, sent, r)"
    by (cases "handle_begin h (shared w) record_id query") auto
  then have "cache st1 = cache (shared w)"
    using handle_begin_cache [of h "shared w" record_id query] by simp
  with c b Begin show ?thesis
    by (cases r) (simp_all add: step_def)
next
  case (Finish i)
  assume c: "cache (shared w) k = Some v"
  show ?thesis
  proof (cases "i < length (inflight w)")
    case False
    with c Finish show ?thesis by (simp add: step_def)
  next
    case True
    obtain sent p where ip: "inflight w ! i = (sent, p)"
      by (cases "inflight w ! i") auto
    obtain st2 sent' raised where f: "handle_finish (shared w) p = (st2, sent', raised)"
      by (cases "handle_finish (shared w) p") auto
    then have "cache st2 k = Some v"
      using handle_finish_keeps [OF c, of p] by simp
    with True Finish ip f show ?thesis
      by (simp add: step_def)
  qed
qed

lemma run_schedule_keeps:
  "cache (shared w) k = Some v \<Longrightarrow> cache (shared (run_schedule h w as)) k = Some v"
  by (induction as arbitrary: w) (simp_all add: step_keeps)

lemma handle_miss_stores:
  assumes "cache st k = None"
    and "resolve h record_id (query_format h query) (index_format h) = Inr (k, idx)"
    and "make_ticket h (store st) (query_format h query) query k idx = (s1, sent, Inr ticket_str)"
  shows "handle h st record_id query =
     (\<lparr>cache = (cache st)(k \<mapsto> ticket_str), store = s1\<rparr>,
      sent @ [SendResponse 200, SendHeader ''Content-Type'' OK_RESPONSE_CONTENT_TYPE, EndHeaders,
              Write ticket_str],
      Some str_write_error)"
  using assms
  by (simp add: handle_def handle_begin_def handle_finish_def cache_store_def send_ticket_def
      domIff)

text \<open>
  C7 fails on the code in its middle part. Once a ticket is stored in the cache under
  a key, no call of \<open>handle\<close> changes it, neither a call that runs alone nor any
  interleaving of the parts of overlapping calls; and a call for that key that starts
  afterwards neither reads \<open>exists\<close> nor calls \<open>create_index\<close>. But it does not return
  the stored ticket: it sends the status and the headers and passes the stored string
  as it is to \<open>wfile.write\<close>, which raises the \<open>TypeError\<close> of a \<open>str\<close> written to a
  binary stream.
\<close>

theorem cached_ticket_is_kept_and_its_write_raises:
  assumes "cache (shared w) k = Some v"
  shows "cache (fst (handle h (shared w) record_id query)) k = Some v \<and>
     cache (shared (run_schedule h w acts)) k = Some v \<and>
     (resolve h record_id (query_format h query) (index_format h) = Inr (k, idx) \<longrightarrow>
        handle h (shared w) record_id query =
          (shared w,
           [SendResponse 200, SendHeader ''Content-Type'' OK_RESPONSE_CONTENT_TYPE, EndHeaders,
            Write v],
           Some (PyError ''TypeError''
             [''a bytes-like object is required, not '' @ CHR 0x27 # ''str'' @ [CHR 0x27]])) \<and>
        step h w (Begin record_id query) = w\<lparr>inflight := inflight w @ [([], Hit v)]\<rparr> \<and>
        handle_finish st (Hit v) =
          (st,
           [SendResponse 200, SendHeader ''Content-Type'' OK_RESPONSE_CONTENT_TYPE, EndHeaders,
            Write v],
           Some (PyError ''TypeError''
             [''a bytes-like object is required, not '' @ CHR 0x27 # ''str'' @ [CHR 0x27]])))"
proof (intro conjI impI)
  obtain st1 sent r where b: "handle_begin h (shared w) record_id query = (st1, sent, r)"
    by (cases "handle_begin h (shared w) record_id query") auto
  then have c1: "cache st1 k = Some v"
    using handle_begin_cache [of h "shared w" record_id query] assms by simp
  show "cache (fst (handle h (shared w) record_id query)) k = Some v"
  proof (cases r)
    case (Inl e)
    with b c1 show ?thesis by (simp add: handle_def)
  next
    case (Inr p)
    obtain st2 sent' raised where f: "handle_finish st1 p = (st2, sent', raised)"
      by (cases "handle_finish st1 p") auto
    with handle_finish_keeps [OF c1, of p] have "cache st2 k = Some v" by simp
    with b Inr f show ?thesis
      by (simp add: handle_def)
  qed
next
  show "cache (shared (run_schedule h w acts)) k = Some v"
    using assms by (rule run_schedule_keeps)
next
  assume r: "resolve h record_id (query_format h query) (index_format h) = Inr (k, idx)"
  note hit = handle_begin_hit [OF assms r]
  show "handle h (shared w) record_id query =
      (shared w,
       [SendResponse 200, SendHeader ''Content-Type'' OK_RESPONSE_CONTENT_TYPE, EndHeaders, Write v],
       Some (PyError ''TypeError''
         [''a bytes-like object is required, not '' @ CHR 0x27 # ''str'' @ [CHR 0x27]]))"
    by (simp add: handle_def hit handle_finish_def send_ticket_def str_write_error_def)
  show "step h w (Begin record_id query) = w\<lparr>inflight := inflight w @ [([], Hit v)]\<rparr>"
    by (simp add: step_def hit)
  show "handle_finish st (Hit v) =
      (st,
       [SendResponse 200, SendHeader ''Content-Type'' OK_RESPONSE_CONTENT_TYPE, EndHeaders, Write v],
       Some (PyError ''TypeError''
         [''a bytes-like object is required, not '' @ CHR 0x27 # ''str'' @ [CHR 0x27]]))"
    by (simp add: handle_finish_def send_ticket_def str_write_error_def)
qed

theorem cached_ticket_is_kept_and_its_write_raises_witness:
  "cache (shared example_workers) 0 = Some ''ticket'' \<and>
   cache (shared (run_schedule example_handler example_workers
      [Begin [''x''] Map.empty, Begin [] Map.empty, Finish 1, Finish 0])) 0 = Some ''ticket'' \<and>
   handle example_handler (shared example_workers) [''x''] Map.empty =
     (shared example_workers,
      [SendResponse 200, SendHeader ''Content-Type'' OK_RESPONSE_CONTENT_TYPE, EndHeaders,
       Write ''ticket''],
      Some (PyError ''TypeError''
        [''a bytes-like object is required, not '' @ CHR 0x27 # ''str'' @ [CHR 0x27]]))"
proof -
  have c: "cache (shared example_workers) 0 = Some ''ticket''"
    by (simp add: example_workers_def)
  have r: "resolve example_handler [''x''] (query_format example_handler Map.empty)
      (index_format example_handler) = Inr (0, 1)"
    by (simp add: example_handler_def)
  show ?thesis
    using c r cached_ticket_is_kept_and_its_write_raises [OF c, of example_handler "[''x'']"
        Map.empty "[Begin [''x''] Map.empty, Begin [] Map.empty, Finish 1, Finish 0]" 1]
    by blast
qed

end
